theory Spec2Isabelle
  imports Complex_Main "HOL-Library.Word" "HOL-Library.Multiset" "HOL-Library.Product_Lexorder"
begin

section \<open>Data model\<close>

subsection \<open>Images\<close>

text \<open>
  An image is a PIL image in mode RGB, or the numpy array of shape height x width x 3
  made from it: its size and one triple of bytes per position. The triple holds the
  three channels in the order of the array; PIL reads them as (R, G, B), OpenCV as
  (B, G, R).
\<close>

type_synonym pixel = "8 word \<times> 8 word \<times> 8 word"

record image =
  width :: nat
  height :: nat
  pixels :: "nat \<Rightarrow> nat \<Rightarrow> pixel"

text \<open>Two images have the same pixel content: same size, same triple at every position.\<close>

definition same_pixels :: "image \<Rightarrow> image \<Rightarrow> bool" where
  "same_pixels a b \<longleftrightarrow>
     width a = width b \<and> height a = height b \<and>
     (\<forall>x < width a. \<forall>y < height a. pixels a x y = pixels b x y)"

text \<open>\<^verbatim>\<open>Image.new('RGB', (w, h))\<close>: every pixel is black.\<close>

definition Image_new :: "nat \<Rightarrow> nat \<Rightarrow> image" where
  "Image_new w h = \<lparr>width = w, height = h, pixels = (\<lambda>x y. (0, 0, 0))\<rparr>"

text \<open>
  \<^verbatim>\<open>canvas.paste(im, (ox, oy))\<close>: the pixels of \<open>im\<close> replace those of the canvas in
  the box of the size of \<open>im\<close> whose upper left corner is \<open>(ox, oy)\<close>; the size of the
  canvas stays, so what falls outside it is lost.
\<close>

definition paste :: "image \<Rightarrow> image \<Rightarrow> nat \<times> nat \<Rightarrow> image" where
  "paste canvas im box =
     (case box of (ox, oy) \<Rightarrow>
        canvas\<lparr>pixels := (\<lambda>x y.
          if ox \<le> x \<and> x < ox + width im \<and> oy \<le> y \<and> y < oy + height im
          then pixels im (x - ox) (y - oy)
          else pixels canvas x y)\<rparr>)"

text \<open>\<^verbatim>\<open>concatenate_images\<close> of detection_model.py.\<close>

definition concatenate_images :: "image \<Rightarrow> image \<Rightarrow> image" where
  "concatenate_images image1 image2 =
     (let total_width = width image1 + width image2;
          max_height = max (height image1) (height image2);
          concatenated_image = Image_new total_width max_height;
          concatenated_image = paste concatenated_image image1 (0, 0);
          concatenated_image = paste concatenated_image image2 (width image1, 0)
      in concatenated_image)"

subsection \<open>The detection table and \<^verbatim>\<open>insert_data\<close>\<close>

text \<open>
  A row of the ORM class \<^verbatim>\<open>DetectionData\<close> as \<^verbatim>\<open>insert_data\<close> builds it; the
  primary key is given by the database and is not part of what the function passes.
\<close>

type_synonym timestamp = string

record DetectionData =
  image_name :: string
  model_name :: string
  pfs_count :: int
  vial_count :: int
  timestamp :: timestamp

text \<open>
  A database session: the objects added and not yet committed, and the rows of the
  table. \<^verbatim>\<open>db.add\<close> puts an object in the session, \<^verbatim>\<open>db.commit\<close> writes the
  pending objects to the table.
\<close>

record db_session =
  pending :: "DetectionData list"
  committed :: "DetectionData list"

definition db_add :: "DetectionData \<Rightarrow> db_session \<Rightarrow> db_session" where
  "db_add row db = db\<lparr>pending := pending db @ [row]\<rparr>"

definition db_commit :: "db_session \<Rightarrow> db_session" where
  "db_commit db = db\<lparr>pending := [], committed := committed db @ pending db\<rparr>"

definition insert_data ::
  "db_session \<Rightarrow> string \<Rightarrow> string \<Rightarrow> int \<Rightarrow> int \<Rightarrow> timestamp \<Rightarrow> db_session" where
  "insert_data db image_name' model_name' pfs_count' vial_count' timestamp' =
     (let truncated_image_name = take 30 image_name';
          db_data = \<lparr>image_name = truncated_image_name,
                     model_name = model_name',
                     pfs_count = pfs_count',
                     vial_count = vial_count',
                     timestamp = timestamp'\<rparr>
      in db_commit (db_add db_data db))"

subsection \<open>Detector configurations\<close>

datatype error = UnboundLocalError | KeyError | FileNotFoundError | PersistenceError

text \<open>
  One entry of the dictionary \<^verbatim>\<open>models\<close>. The YOLO handle is known by the weights
  file it was loaded from. Thresholds are the decimal numbers written in the source.
\<close>

record model_info =
  model :: string
  conf_threshold :: rat
  iou_threshold :: rat
  classes :: "int \<rightharpoonup> string"

definition vials_info :: model_info where
  "vials_info = \<lparr>model = ''yolov8l(vials)_3k_80.pt'',
                  conf_threshold = 65 / 100,
                  iou_threshold = 45 / 100,
                  classes = [0 \<mapsto> ''VIAL'']\<rparr>"

definition pfs_info :: model_info where
  "pfs_info = \<lparr>model = ''yolov8l(pfs)_1k_80.pt'',
                conf_threshold = 70 / 100,
                iou_threshold = 45 / 100,
                classes = [0 \<mapsto> ''PFS'']\<rparr>"

definition models :: "string \<rightharpoonup> model_info" where
  "models = [''Vials'' \<mapsto> vials_info, ''PFS'' \<mapsto> pfs_info]"

subsection \<open>Detection\<close>

text \<open>
  A row of \<^verbatim>\<open>results[0].boxes.data\<close>: the corners of the box, the confidence and
  the class id, all of them numbers of the tensor (not yet integers).
\<close>

record box_row =
  box_x1 :: rat
  box_y1 :: rat
  box_x2 :: rat
  box_y2 :: rat
  box_conf :: rat
  box_cls :: rat

text \<open>
  The detector is not part of the repository: \<^verbatim>\<open>model.predict\<close> is a parameter that
  takes the handle, the source array and both thresholds and returns the list
  \<^verbatim>\<open>results\<close>, each element given by the rows of its \<^verbatim>\<open>boxes.data\<close>.
\<close>

type_synonym detector = "string \<Rightarrow> image \<Rightarrow> rat \<Rightarrow> rat \<Rightarrow> box_row list list"

text \<open>
  The calls made on \<^verbatim>\<open>ImageDraw.Draw(img_draw)\<close>. What a call does to the pixels is
  the library's work: a parameter.
\<close>

datatype draw_call =
  Rectangle "(int \<times> int) \<times> (int \<times> int)" string
| Ellipse "int \<times> int \<times> int \<times> int" string

type_synonym renderer = "draw_call \<Rightarrow> image \<Rightarrow> image"

datatype color_code = COLOR_RGB2BGR | COLOR_BGR2RGB

text \<open>\<^verbatim>\<open>cv2.cvtColor\<close>: both codes exchange the first and the third channel.\<close>

fun cvtColor :: "image \<Rightarrow> color_code \<Rightarrow> image" where
  "cvtColor im COLOR_RGB2BGR =
     im\<lparr>pixels := (\<lambda>x y. case pixels im x y of (c0, c1, c2) \<Rightarrow> (c2, c1, c0))\<rparr>"
| "cvtColor im COLOR_BGR2RGB =
     im\<lparr>pixels := (\<lambda>x y. case pixels im x y of (c0, c1, c2) \<Rightarrow> (c2, c1, c0))\<rparr>"

text \<open>Python's \<^verbatim>\<open>int\<close> of a float: rounding towards zero.\<close>

definition py_int :: "rat \<Rightarrow> int" where
  "py_int q = (if 0 \<le> q then \<lfloor>q\<rfloor> else \<lceil>q\<rceil>)"

text \<open>
  \<^verbatim>\<open>sorted(zip(labels, coords), key=lambda x: (x[1][0], x[1][1]))\<close>: a stable sort
  by the pair (x1, y1) of the row, compared as Python compares tuples.
\<close>

definition origin :: "box_row \<Rightarrow> rat \<times> rat" where
  "origin r = (box_x1 r, box_y1 r)"

definition sorted_rows :: "box_row list \<Rightarrow> box_row list" where
  "sorted_rows rows = sort_key origin rows"

text \<open>
  The variables of the loop of \<^verbatim>\<open>predict_and_draw\<close>. The two colours are unbound
  until an iteration assigns them. \<open>drawn\<close> lists the calls made on the drawing
  context so far, in order.
\<close>

record loop_state =
  img_draw :: image
  drawn :: "draw_call list"
  class_counts :: "string \<rightharpoonup> int"
  bbox_color :: "string option"
  dot_color :: "string option"

definition class_name_of :: "(int \<rightharpoonup> string) \<Rightarrow> box_row \<Rightarrow> string" where
  "class_name_of cls_tbl row =
     (case cls_tbl (py_int (box_cls row)) of None \<Rightarrow> ''Unknown'' | Some n \<Rightarrow> n)"

text \<open>One iteration of the loop.\<close>

definition draw_step ::
  "renderer \<Rightarrow> (int \<rightharpoonup> string) \<Rightarrow> box_row \<Rightarrow> loop_state \<Rightarrow> error + loop_state" where
  "draw_step render cls_tbl row st =
     (let x1 = py_int (box_x1 row); y1 = py_int (box_y1 row);
          x2 = py_int (box_x2 row); y2 = py_int (box_y2 row);
          class_name = class_name_of cls_tbl row;
          st = (if class_name = ''PFS''
                then st\<lparr>bbox_color := Some ''black'', dot_color := Some ''white''\<rparr>
                else if class_name = ''VIAL''
                then st\<lparr>bbox_color := Some ''white'', dot_color := Some ''black''\<rparr>
                else st)
      in case bbox_color st of
           None \<Rightarrow> Inl UnboundLocalError
         | Some bc \<Rightarrow>
            (let c1 = Rectangle ((x1, y1), (x2, y2)) bc;
                 st = st\<lparr>img_draw := render c1 (img_draw st), drawn := drawn st @ [c1]\<rparr>
             in case dot_color st of
                  None \<Rightarrow> Inl UnboundLocalError
                | Some dc \<Rightarrow>
                   (let c2 = Ellipse (x1, y1, x1 + 5, y1 + 5) dc;
                        st = st\<lparr>img_draw := render c2 (img_draw st),
                                drawn := drawn st @ [c2]\<rparr>
                    in Inr (case class_counts st class_name of
                              None \<Rightarrow> st
                            | Some n \<Rightarrow>
                                st\<lparr>class_counts := (class_counts st)(class_name \<mapsto> n + 1)\<rparr>))))"

fun draw_loop ::
  "renderer \<Rightarrow> (int \<rightharpoonup> string) \<Rightarrow> box_row list \<Rightarrow> loop_state \<Rightarrow> error + loop_state" where
  "draw_loop render cls_tbl [] st = Inr st"
| "draw_loop render cls_tbl (row # rows) st =
     (case draw_step render cls_tbl row st of
        Inl e \<Rightarrow> Inl e
      | Inr st' \<Rightarrow> draw_loop render cls_tbl rows st')"

text \<open>
  \<^verbatim>\<open>predict_and_draw\<close>. \<open>now\<close> is what \<^verbatim>\<open>datetime.now()\<close> gives, formatted, when
  the function returns.
\<close>

definition loop_init :: "image \<Rightarrow> loop_state" where
  "loop_init im = \<lparr>img_draw = im, drawn = [],
                   class_counts = [''PFS'' \<mapsto> 0, ''VIAL'' \<mapsto> 0],
                   bbox_color = None, dot_color = None\<rparr>"

definition predict_and_draw ::
  "detector \<Rightarrow> renderer \<Rightarrow> timestamp \<Rightarrow> image \<Rightarrow> model_info \<Rightarrow>
   error + (image \<times> (string \<rightharpoonup> int) \<times> timestamp)" where
  "predict_and_draw predict render now image0 info =
     (let image = cvtColor image0 COLOR_RGB2BGR;
          results = predict (model info) image (conf_threshold info) (iou_threshold info)
      in if results = [] \<or> length (hd results) = 0
         then Inr (image, Map.empty, now)
         else
           (let rows = hd results;
                img = cvtColor image COLOR_BGR2RGB
            in case draw_loop render (classes info) (sorted_rows rows) (loop_init img) of
                 Inl e \<Rightarrow> Inl e
               | Inr st \<Rightarrow> Inr (img_draw st, class_counts st, now)))"

text \<open>The number of detections the detector returned for the image.\<close>

definition detections :: "box_row list list \<Rightarrow> nat" where
  "detections results = (case results of [] \<Rightarrow> 0 | rows # _ \<Rightarrow> length rows)"

text \<open>
  The corners that an iteration of the loop passes to \<^verbatim>\<open>draw.rectangle\<close> and to
  \<^verbatim>\<open>draw.ellipse\<close> for a row.
\<close>

definition box_corners :: "box_row \<Rightarrow> (int \<times> int) \<times> (int \<times> int)" where
  "box_corners r =
     ((py_int (box_x1 r), py_int (box_y1 r)), (py_int (box_x2 r), py_int (box_y2 r)))"

definition dot_corners :: "box_row \<Rightarrow> int \<times> int \<times> int \<times> int" where
  "dot_corners r =
     (py_int (box_x1 r), py_int (box_y1 r), py_int (box_x1 r) + 5, py_int (box_y1 r) + 5)"

text \<open>
  The calls of the loop for a list of rows, in order, given the two colours used for
  each row.
\<close>

definition calls_for :: "box_row list \<Rightarrow> (string \<times> string) list \<Rightarrow> draw_call list" where
  "calls_for rows colours =
     concat (map (\<lambda>(r, bc, dc). [Rectangle (box_corners r) bc, Ellipse (dot_corners r) dc])
       (zip rows colours))"

text \<open>What a returned outcome shows: a pixel of its image, and its counts.\<close>

definition outcome_pixel ::
  "error + (image \<times> (string \<rightharpoonup> int) \<times> timestamp) \<Rightarrow> nat \<Rightarrow> nat \<Rightarrow> pixel option" where
  "outcome_pixel out x y =
     (case out of Inl e \<Rightarrow> None | Inr (img, counts, ts) \<Rightarrow> Some (pixels img x y))"

definition outcome_counts ::
  "error + (image \<times> (string \<rightharpoonup> int) \<times> timestamp) \<Rightarrow> (string \<rightharpoonup> int) option" where
  "outcome_counts out = (case out of Inl e \<Rightarrow> None | Inr (img, counts, ts) \<Rightarrow> Some counts)"

subsection \<open>The detection page\<close>

text \<open>A row of \<^verbatim>\<open>results_list\<close>, with the columns of the data frame made from it.\<close>

record result_row =
  Image_Name :: string
  Model_Used :: string
  PFS_Count :: int
  VIAL_Count :: int
  Timestamp :: timestamp
  Username :: string

text \<open>
  What the page reads and writes outside its local variables: the module's dictionary
  \<^verbatim>\<open>models\<close>, the files under the three folders (a saved image is read back as it was
  saved), the table \<^verbatim>\<open>detection\<close> of the database, the calls of \<^verbatim>\<open>to_sql\<close> made
  so far with the rows each one carried, and how many times the clock was read.
\<close>

record page_state =
  models_global :: "string \<rightharpoonup> model_info"
  files :: "string \<rightharpoonup> image"
  detection :: "result_row list"
  to_sql_calls :: "result_row list list"
  clock_reads :: nat

text \<open>
  \<^verbatim>\<open>results_df.to_sql('detection', con=db, if_exists='append', index=False)\<close> belongs
  to the library and the database: a parameter that takes the rows of the data frame
  and the table and gives the table it leaves, together with the exception it raises, if
  it raises one. The clock is a parameter too: the formatted time of its n-th reading.
\<close>

type_synonym sink =
  "result_row list \<Rightarrow> result_row list \<Rightarrow> error option \<times> result_row list"

type_synonym clock = "nat \<Rightarrow> timestamp"

definition os_path_join :: "string \<Rightarrow> string \<Rightarrow> string" where
  "os_path_join folder name =
     (case name of
        [] \<Rightarrow> folder @ ''/''
      | c # _ \<Rightarrow> if c = CHR ''/'' then name else folder @ ''/'' @ name)"

definition original_folder :: string where "original_folder = ''original_images''"
definition processed_folder :: string where "processed_folder = ''processed_images''"
definition combined_folder :: string where "combined_folder = ''combined_images''"

text \<open>\<^verbatim>\<open>d.get(key, 0)\<close> and \<^verbatim>\<open>d[key]\<close> on a dictionary of counts.\<close>

definition dict_get0 :: "(string \<rightharpoonup> int) \<Rightarrow> string \<Rightarrow> int" where
  "dict_get0 d k = (case d k of None \<Rightarrow> 0 | Some v \<Rightarrow> v)"

definition dict_item :: "('k \<rightharpoonup> 'v) \<Rightarrow> 'k \<Rightarrow> error + 'v" where
  "dict_item d k = (case d k of None \<Rightarrow> Inl KeyError | Some v \<Rightarrow> Inr v)"

text \<open>
  The choice between the two outcomes (lines 92 to 102 of user_page.py): the image,
  the name of the model and the dictionary \<^verbatim>\<open>final_counts\<close>.
\<close>

definition arbitrate ::
  "image \<times> (string \<rightharpoonup> int) \<Rightarrow> image \<times> (string \<rightharpoonup> int) \<Rightarrow>
   image \<times> string \<times> (string \<rightharpoonup> int)" where
  "arbitrate vials pfs =
     (case vials of (processed_image_vials, counts_vials) \<Rightarrow>
      case pfs of (processed_image_pfs, counts_pfs) \<Rightarrow>
        (let total_vials = dict_get0 counts_vials ''VIAL'';
             total_pfs = dict_get0 counts_pfs ''PFS''
         in if total_vials \<ge> total_pfs
            then (processed_image_vials, ''Vials'', [''PFS'' \<mapsto> 0, ''VIAL'' \<mapsto> total_vials])
            else (processed_image_pfs, ''PFS'', [''PFS'' \<mapsto> total_pfs, ''VIAL'' \<mapsto> 0])))"

text \<open>
  The first loop of the page: every uploaded or captured image is kept with its name
  and saved under the folder of the originals.
\<close>

fun save_originals :: "(image \<times> string) list \<Rightarrow> page_state \<Rightarrow> page_state" where
  "save_originals [] s = s"
| "save_originals ((im, name) # rest) s =
     save_originals rest (s\<lparr>files := (files s)(os_path_join original_folder name \<mapsto> im)\<rparr>)"

text \<open>
  One iteration of the second loop (lines 86 to 122). An exception leaves the loop with
  the state as it is at that moment.
\<close>

definition process_image ::
  "detector \<Rightarrow> renderer \<Rightarrow> clock \<Rightarrow> string \<Rightarrow> image \<Rightarrow> string \<Rightarrow> page_state \<Rightarrow>
   (error + result_row) \<times> page_state" where
  "process_image predict render now username im name s =
     (case dict_item (models_global s) ''Vials'' of
        Inl e \<Rightarrow> (Inl e, s)
      | Inr info_vials \<Rightarrow>
     (case predict_and_draw predict render (now (clock_reads s)) im info_vials of
        Inl e \<Rightarrow> (Inl e, s)
      | Inr (processed_image_vials, counts_vials, timestamp_vials) \<Rightarrow>
     (let s = s\<lparr>clock_reads := clock_reads s + 1\<rparr> in
      case dict_item (models_global s) ''PFS'' of
        Inl e \<Rightarrow> (Inl e, s)
      | Inr info_pfs \<Rightarrow>
     (case predict_and_draw predict render (now (clock_reads s)) im info_pfs of
        Inl e \<Rightarrow> (Inl e, s)
      | Inr (processed_image_pfs, counts_pfs, timestamp_pfs) \<Rightarrow>
     (let s = s\<lparr>clock_reads := clock_reads s + 1\<rparr> in
      case arbitrate (processed_image_vials, counts_vials) (processed_image_pfs, counts_pfs) of
        (final_image, model_used, final_counts) \<Rightarrow>
     (let s = s\<lparr>files := (files s)(os_path_join processed_folder name \<mapsto> final_image)\<rparr> in
      case files s (os_path_join original_folder name) of
        None \<Rightarrow> (Inl FileNotFoundError, s)
      | Some original_img \<Rightarrow>
     (let combined_image = concatenate_images original_img final_image;
          s = s\<lparr>files := (files s)(os_path_join combined_folder name \<mapsto> combined_image)\<rparr> in
      case dict_item final_counts ''PFS'' of
        Inl e \<Rightarrow> (Inl e, s)
      | Inr pfs \<Rightarrow>
     (case dict_item final_counts ''VIAL'' of
        Inl e \<Rightarrow> (Inl e, s)
      | Inr vial \<Rightarrow>
        (Inr \<lparr>Image_Name = name, Model_Used = model_used, PFS_Count = pfs,
              VIAL_Count = vial, Timestamp = timestamp_vials, Username = username\<rparr>,
         s)))))))))"

text \<open>The second loop: the rows of \<^verbatim>\<open>results_list\<close> in the order of the images.\<close>

fun process_images ::
  "detector \<Rightarrow> renderer \<Rightarrow> clock \<Rightarrow> string \<Rightarrow> (image \<times> string) list \<Rightarrow> page_state \<Rightarrow>
   (error + result_row list) \<times> page_state" where
  "process_images predict render now username [] s = (Inr [], s)"
| "process_images predict render now username ((im, name) # rest) s =
     (case process_image predict render now username im name s of
        (Inl e, s') \<Rightarrow> (Inl e, s')
      | (Inr row, s') \<Rightarrow>
          (case process_images predict render now username rest s' of
             (Inl e, s'') \<Rightarrow> (Inl e, s'')
           | (Inr rows, s'') \<Rightarrow> (Inr (row # rows), s'')))"

text \<open>
  \<^verbatim>\<open>user_detection_page\<close>, for a run in which the form was submitted with the given
  images and the user did not log out. Without a user name in the session the page
  stops at once. After the loop, the rows are pushed to the database together, if there
  are any.
\<close>

definition user_detection_page ::
  "detector \<Rightarrow> renderer \<Rightarrow> clock \<Rightarrow> sink \<Rightarrow> string option \<Rightarrow> (image \<times> string) list \<Rightarrow>
   page_state \<Rightarrow> (error + result_row list) \<times> page_state" where
  "user_detection_page predict render now to_sql session_username uploads s =
     (case session_username of
        None \<Rightarrow> (Inr [], s)
      | Some username \<Rightarrow>
         (let s = save_originals uploads s in
          case process_images predict render now username uploads s of
            (Inl e, s) \<Rightarrow> (Inl e, s)
          | (Inr results_list, s) \<Rightarrow>
             if results_list \<noteq> []
             then (let s = s\<lparr>to_sql_calls := to_sql_calls s @ [results_list]\<rparr> in
                   case to_sql results_list (detection s) of
                     (Some e, table) \<Rightarrow> (Inl e, s\<lparr>detection := table\<rparr>)
                   | (None, table) \<Rightarrow> (Inr results_list, s\<lparr>detection := table\<rparr>))
             else (Inr results_list, s)))"

subsection \<open>Sample inputs\<close>

text \<open>Small images, detections and collaborators on which the theorems are run.\<close>

definition img_A :: image where
  "img_A = \<lparr>width = 2, height = 1,
            pixels = (\<lambda>x y. if x = 0 then (1, 2, 3) else (4, 5, 6))\<rparr>"

definition img_B :: image where
  "img_B = \<lparr>width = 1, height = 2,
            pixels = (\<lambda>x y. if y = 0 then (7, 8, 9) else (10, 11, 12))\<rparr>"

definition img_red :: image where
  "img_red = \<lparr>width = 1, height = 1, pixels = (\<lambda>x y. (255, 0, 0))\<rparr>"

definition no_render :: renderer where
  "no_render c im = im"

definition box :: "rat \<Rightarrow> rat \<Rightarrow> rat \<Rightarrow> rat \<Rightarrow> rat \<Rightarrow> box_row" where
  "box a b c d k =
     \<lparr>box_x1 = a, box_y1 = b, box_x2 = c, box_y2 = d, box_conf = 9 / 10, box_cls = k\<rparr>"

definition det_three :: detector where
  "det_three h im c i = [[box 30 10 50 40 0, box 5 5 20 20 0, box 40 0 60 20 3]]"

definition det_unknown :: detector where
  "det_unknown h im c i = [[box 5 5 20 20 1]]"

definition det_none :: detector where
  "det_none h im c i = [[]]"

definition tie_rows :: "box_row list" where
  "tie_rows = [box 0 0 10 10 0, box 0 0 90 90 0]"

definition some_rows :: "box_row list" where
  "some_rows = [box 30 10 50 40 0, box 5 7 20 20 0, box 5 2 60 20 0]"

definition tie_unknown :: "box_row list" where
  "tie_unknown = [box 0 0 10 10 1, box 0 0 90 90 0]"

definition det_rows :: "box_row list \<Rightarrow> detector" where
  "det_rows rows h im c i = [rows]"

text \<open>
  A drawing that only keeps, at the first pixel, the far corner of the rectangle drawn
  last: it makes the order of the calls visible in the image.
\<close>

fun mark_last :: renderer where
  "mark_last (Rectangle b c) im =
     im\<lparr>pixels := (\<lambda>x y. if x = 0 \<and> y = 0
                             then (word_of_int (fst (snd b)), word_of_int (snd (snd b)), 0)
                             else pixels im x y)\<rparr>"
| "mark_last (Ellipse b c) im = im"

definition det_by_model :: "box_row list \<Rightarrow> box_row list \<Rightarrow> detector" where
  "det_by_model vrows prows h im c i =
     (if h = ''yolov8l(vials)_3k_80.pt'' then [vrows] else [prows])"

definition clock_fn :: clock where
  "clock_fn n = (if even n then ''2024-01-01 10:00:00'' else ''2024-01-01 10:00:01'')"

definition page0 :: page_state where
  "page0 = \<lparr>models_global = models, files = Map.empty, detection = [],
             to_sql_calls = [], clock_reads = 0\<rparr>"

definition reject_name :: "string \<Rightarrow> sink" where
  "reject_name bad rows table =
     (if bad \<in> set (map Image_Name rows) then (Some PersistenceError, table)
      else (None, table @ rows))"

definition batch3 :: "(image \<times> string) list" where
  "batch3 = [(img_red, ''a.jpg''), (img_red, ''b.jpg''), (img_red, ''c.jpg'')]"

definition row_of :: "string \<Rightarrow> result_row" where
  "row_of name = \<lparr>Image_Name = name, Model_Used = ''Vials'', PFS_Count = 0, VIAL_Count = 0,
                   Timestamp = ''2024-01-01 10:00:00'', Username = ''ann''\<rparr>"

section \<open>Composition of two images\<close>

lemma paste_size: "width (paste c im b) = width c \<and> height (paste c im b) = height c"
  by (cases b) (simp add: paste_def)

text \<open>
  C5: the image returned by \<^verbatim>\<open>concatenate_images\<close> is as wide as both images together
  and as high as the higher one; its pixels in the box of the first image, from the
  upper left corner, are those of the first image, and its pixels in the box of the
  second image, moved right by the width of the first, are those of the second: no
  pixel of either is scaled or moved otherwise.
\<close>

theorem concatenate_images_layout:
  "width (concatenate_images A B) = width A + width B \<and>
   height (concatenate_images A B) = max (height A) (height B) \<and>
   (\<forall>x < width A. \<forall>y < height A. pixels (concatenate_images A B) x y = pixels A x y) \<and>
   (\<forall>x < width B. \<forall>y < height B.
      pixels (concatenate_images A B) (width A + x) y = pixels B x y)"
  by (simp add: concatenate_images_def paste_def Image_new_def Let_def)

theorem concatenate_images_layout_witness:
  "width (concatenate_images img_A img_B) = 3 \<and>
   height (concatenate_images img_A img_B) = 2 \<and>
   (1::nat) < width img_A \<and> (0::nat) < height img_A \<and>
   pixels (concatenate_images img_A img_B) 1 0 = (4, 5, 6) \<and>
   (0::nat) < width img_B \<and> (1::nat) < height img_B \<and>
   pixels (concatenate_images img_A img_B) 2 1 = (10, 11, 12)"
proof -
  have a: "(1::nat) < width img_A" "(0::nat) < height img_A"
    and b: "(0::nat) < width img_B" "(1::nat) < height img_B"
    by (simp_all add: img_A_def img_B_def)
  note l = concatenate_images_layout [of img_A img_B]
  from l have "width (concatenate_images img_A img_B) = 3"
    by (simp add: img_A_def img_B_def)
  moreover from l have "height (concatenate_images img_A img_B) = 2"
    by (simp add: img_A_def img_B_def)
  moreover from l a have "pixels (concatenate_images img_A img_B) 1 0 = pixels img_A 1 0"
    by blast
  moreover from l b have
    "pixels (concatenate_images img_A img_B) (width img_A + 0) 1 = pixels img_B 0 1"
    by blast
  ultimately show ?thesis
    using a b by (simp add: img_A_def img_B_def)
qed

section \<open>Recording a detection\<close>

text \<open>
  C9: the row that \<^verbatim>\<open>insert_data\<close> commits holds the first 30 characters of the image
  name it was given, which is the whole name when the name has at most 30 characters;
  the model name, both counts and the timestamp are those it was given. The row is added
  after the rows already in the table and those pending in the session, and nothing is
  left pending.
\<close>

theorem insert_data_row:
  "committed (insert_data db name mname p v ts) =
     committed db @ pending db @
       [\<lparr>image_name = take 30 name, model_name = mname, pfs_count = p,
         vial_count = v, timestamp = ts\<rparr>] \<and>
   pending (insert_data db name mname p v ts) = [] \<and>
   length (take 30 name) \<le> 30 \<and>
   (length name \<le> 30 \<longrightarrow> image_name (last (committed (insert_data db name mname p v ts))) = name)"
  by (simp add: insert_data_def db_add_def db_commit_def Let_def)

theorem insert_data_row_witness:
  "committed (insert_data \<lparr>pending = [], committed = []\<rparr>
      ''a_very_long_image_file_name_of_40_chars_'' ''Vials'' 0 4 ''2024-01-01 10:00:00'') =
     [\<lparr>image_name = ''a_very_long_image_file_name_of'', model_name = ''Vials'',
       pfs_count = 0, vial_count = 4, timestamp = ''2024-01-01 10:00:00''\<rparr>] \<and>
   length ''vial.jpg'' \<le> 30 \<and>
   image_name (last (committed (insert_data \<lparr>pending = [], committed = []\<rparr>
      ''vial.jpg'' ''PFS'' 2 0 ''2024-01-01 10:00:00''))) = ''vial.jpg''"
  using insert_data_row [of "\<lparr>pending = [], committed = []\<rparr>"
      "''a_very_long_image_file_name_of_40_chars_''" "''Vials''" 0 4 "''2024-01-01 10:00:00''"]
    insert_data_row [of "\<lparr>pending = [], committed = []\<rparr>"
      "''vial.jpg''" "''PFS''" 2 0 "''2024-01-01 10:00:00''"]
  by simp

section \<open>Detection\<close>

lemma py_int_numeral [simp]:
  "py_int (numeral n) = numeral n" "py_int 0 = 0" "py_int 1 = 1"
  by (simp_all add: py_int_def)

subsection \<open>The counts kept by the loop\<close>

lemma draw_step_counts:
  "draw_step R C row st = Inr st' \<Longrightarrow>
   class_counts st' k =
     (if class_name_of C row = k then map_option (\<lambda>n. n + 1) (class_counts st k)
      else class_counts st k)"
  by (auto simp: draw_step_def Let_def split: option.splits if_splits)

lemma draw_loop_counts:
  "draw_loop R C rows st = Inr st' \<Longrightarrow>
   class_counts st' k =
     map_option (\<lambda>n. n + int (length (filter (\<lambda>r. class_name_of C r = k) rows)))
       (class_counts st k)"
proof (induction rows arbitrary: st)
  case Nil
  then show ?case by (simp add: option.map_ident)
next
  case (Cons row rows)
  from Cons.prems obtain st1 where s1: "draw_step R C row st = Inr st1"
    and l: "draw_loop R C rows st1 = Inr st'"
    by (auto split: sum.splits)
  show ?case
    using Cons.IH [OF l] draw_step_counts [OF s1, of k]
    by (cases "class_counts st k") auto
qed

lemma filter_two_le:
  "(\<And>x. \<not> (P x \<and> Q x)) \<Longrightarrow> length (filter P xs) + length (filter Q xs) \<le> length xs"
  by (induction xs) auto

text \<open>
  C10: when \<^verbatim>\<open>predict_and_draw\<close> returns and the detector gave at least one
  detection, the dictionary of counts has exactly the keys PFS and VIAL, both values are
  non-negative and their sum is at most the number of detections; when the detector gave
  none, the dictionary is empty, so that neither key is in it.
\<close>

theorem class_counts_shape:
  assumes "predict_and_draw P R now im info = Inr (img, counts, ts)"
  shows "(0 < detections (P (model info) (cvtColor im COLOR_RGB2BGR)
                (conf_threshold info) (iou_threshold info)) \<longrightarrow>
            (\<exists>a b. counts = [''PFS'' \<mapsto> a, ''VIAL'' \<mapsto> b] \<and> 0 \<le> a \<and> 0 \<le> b \<and>
               a + b \<le> int (detections (P (model info) (cvtColor im COLOR_RGB2BGR)
                                (conf_threshold info) (iou_threshold info))))) \<and>
         (detections (P (model info) (cvtColor im COLOR_RGB2BGR)
                (conf_threshold info) (iou_threshold info)) = 0 \<longrightarrow>
            counts = Map.empty \<and> counts ''PFS'' = None \<and> counts ''VIAL'' = None)"
proof -
  define res where
    "res = P (model info) (cvtColor im COLOR_RGB2BGR) (conf_threshold info) (iou_threshold info)"
  show ?thesis
  proof (cases "res = [] \<or> length (hd res) = 0")
    case True
    then have "detections res = 0"
      by (cases res) (auto simp: detections_def)
    moreover have "counts = Map.empty"
      using assms True
      by (simp add: predict_and_draw_def Let_def res_def [symmetric] del: cvtColor.simps)
    ultimately show ?thesis
      by (simp add: res_def)
  next
    case False
    then obtain rows rest where r: "res = rows # rest" "rows \<noteq> []"
      by (cases res) auto
    then have n: "detections res = length rows" "0 < length rows"
      by (simp_all add: detections_def)
    from assms False r obtain st where
      l: "draw_loop R (classes info) (sorted_rows rows)
            (loop_init (cvtColor (cvtColor im COLOR_RGB2BGR) COLOR_BGR2RGB)) = Inr st"
      and c: "counts = class_counts st"
      by (auto simp: predict_and_draw_def Let_def res_def [symmetric]
               simp del: cvtColor.simps split: sum.splits)
    define a where
      "a = int (length (filter (\<lambda>r. class_name_of (classes info) r = ''PFS'')
                  (sorted_rows rows)))"
    define b where
      "b = int (length (filter (\<lambda>r. class_name_of (classes info) r = ''VIAL'')
                  (sorted_rows rows)))"
    have "counts k = [''PFS'' \<mapsto> a, ''VIAL'' \<mapsto> b] k" for k
      using draw_loop_counts [OF l, of k] by (simp add: c loop_init_def a_def b_def)
    then have "counts = [''PFS'' \<mapsto> a, ''VIAL'' \<mapsto> b]"
      by blast
    moreover have "a + b \<le> int (length rows)"
    proof -
      have "length (filter (\<lambda>r. class_name_of (classes info) r = ''PFS'') (sorted_rows rows)) +
            length (filter (\<lambda>r. class_name_of (classes info) r = ''VIAL'') (sorted_rows rows))
            \<le> length (sorted_rows rows)"
        by (rule filter_two_le) simp
      then show ?thesis
        by (simp add: a_def b_def sorted_rows_def)
    qed
    moreover have "0 \<le> a" "0 \<le> b"
      by (simp_all add: a_def b_def)
    ultimately show ?thesis
      using n by (auto simp: res_def)
  qed
qed

theorem class_counts_shape_witness:
  "predict_and_draw det_three no_render ''2024-01-01 10:00:00'' img_red vials_info =
     Inr (cvtColor (cvtColor img_red COLOR_RGB2BGR) COLOR_BGR2RGB,
          [''PFS'' \<mapsto> 0, ''VIAL'' \<mapsto> 2], ''2024-01-01 10:00:00'') \<and>
   detections (det_three (model vials_info) (cvtColor img_red COLOR_RGB2BGR)
      (conf_threshold vials_info) (iou_threshold vials_info)) = 3 \<and>
   predict_and_draw det_none no_render ''2024-01-01 10:00:00'' img_red pfs_info =
     Inr (cvtColor img_red COLOR_RGB2BGR, Map.empty, ''2024-01-01 10:00:00'') \<and>
   detections (det_none (model pfs_info) (cvtColor img_red COLOR_RGB2BGR)
      (conf_threshold pfs_info) (iou_threshold pfs_info)) = 0"
proof -
  have e1: "predict_and_draw det_three no_render ''2024-01-01 10:00:00'' img_red vials_info =
     Inr (cvtColor (cvtColor img_red COLOR_RGB2BGR) COLOR_BGR2RGB,
          [''PFS'' \<mapsto> 0, ''VIAL'' \<mapsto> 2], ''2024-01-01 10:00:00'')"
    by (simp add: predict_and_draw_def det_three_def sorted_rows_def origin_def box_def
          vials_info_def draw_step_def class_name_of_def loop_init_def no_render_def Let_def
          fun_upd_twist)
  have e2: "predict_and_draw det_none no_render ''2024-01-01 10:00:00'' img_red pfs_info =
     Inr (cvtColor img_red COLOR_RGB2BGR, Map.empty, ''2024-01-01 10:00:00'')"
    by (simp add: predict_and_draw_def det_none_def pfs_info_def Let_def)
  have n1: "detections (det_three (model vials_info) (cvtColor img_red COLOR_RGB2BGR)
      (conf_threshold vials_info) (iou_threshold vials_info)) = 3"
    by (simp add: detections_def det_three_def)
  have n2: "detections (det_none (model pfs_info) (cvtColor img_red COLOR_RGB2BGR)
      (conf_threshold pfs_info) (iou_threshold pfs_info)) = 0"
    by (simp add: detections_def det_none_def)
  show ?thesis
    using class_counts_shape [OF e1] class_counts_shape [OF e2] e1 e2 n1 n2 by blast
qed

subsection \<open>An image without detections\<close>

text \<open>
  C3: for an image on which the detector finds nothing, \<^verbatim>\<open>predict_and_draw\<close> returns
  (it does not raise) an empty dictionary of counts and the time it read, but the image
  it returns is the array converted to BGR, read again as RGB: on an image of one red
  pixel the pixel comes back blue, so the image returned is not the image given.
\<close>

theorem no_detection_image_swapped:
  "(case predict_and_draw det_none no_render ''2024-01-01 10:00:00'' img_red vials_info of
      Inl e \<Rightarrow> False
    | Inr (img, counts, ts) \<Rightarrow>
        counts = Map.empty \<and> ts = ''2024-01-01 10:00:00'' \<and>
        width img = 1 \<and> height img = 1 \<and>
        pixels img_red 0 0 = (255, 0, 0) \<and> pixels img 0 0 = (0, 0, 255))"
  by (simp add: predict_and_draw_def det_none_def vials_info_def img_red_def)

lemma no_detection_not_same_pixels:
  "predict_and_draw det_none no_render now img_red vials_info = Inr (img, counts, ts) \<Longrightarrow>
   \<not> same_pixels img img_red"
  by (auto simp: predict_and_draw_def det_none_def vials_info_def img_red_def same_pixels_def)

text \<open>
  Whatever the image, the outcome without detections is the array with the first and
  third channel exchanged, while the branch with detections converts back before
  drawing.
\<close>

lemma no_detection_outcome:
  "detections (P (model info) (cvtColor im COLOR_RGB2BGR)
      (conf_threshold info) (iou_threshold info)) = 0 \<Longrightarrow>
   predict_and_draw P R now im info = Inr (cvtColor im COLOR_RGB2BGR, Map.empty, now)"
  by (auto simp: predict_and_draw_def detections_def Let_def
           simp del: cvtColor.simps split: list.splits)

lemma cvtColor_back: "cvtColor (cvtColor im COLOR_RGB2BGR) COLOR_BGR2RGB = im"
  by (simp add: case_prod_beta)

subsection \<open>A class id that is not in the table\<close>

text \<open>
  C6: a detection whose class id is not in the table of the configuration gets the name
  Unknown, for which no colour is assigned; when it is the first one drawn, the colour
  of the box is still unbound and \<^verbatim>\<open>predict_and_draw\<close> raises instead of returning.
\<close>

theorem unknown_class_raises:
  "predict_and_draw det_unknown no_render ''2024-01-01 10:00:00'' img_red vials_info =
     Inl UnboundLocalError"
  by (simp add: predict_and_draw_def det_unknown_def sorted_rows_def origin_def box_def
        vials_info_def draw_step_def class_name_of_def loop_init_def no_render_def Let_def)

text \<open>
  When the function does return, a label counts the rows whose class id maps to it, and
  the rows named Unknown are in neither count.
\<close>

lemma returned_counts:
  assumes "predict_and_draw P R now im info = Inr (img, counts, ts)"
    and "P (model info) (cvtColor im COLOR_RGB2BGR) (conf_threshold info) (iou_threshold info)
           = rows # rest"
    and "rows \<noteq> []"
  shows "counts =
    [''PFS'' \<mapsto> int (length (filter (\<lambda>r. class_name_of (classes info) r = ''PFS'') rows)),
     ''VIAL'' \<mapsto> int (length (filter (\<lambda>r. class_name_of (classes info) r = ''VIAL'') rows))]"
proof -
  from assms obtain st where
    l: "draw_loop R (classes info) (sorted_rows rows)
          (loop_init (cvtColor (cvtColor im COLOR_RGB2BGR) COLOR_BGR2RGB)) = Inr st"
    and c: "counts = class_counts st"
    by (auto simp: predict_and_draw_def Let_def simp del: cvtColor.simps split: sum.splits)
  have len: "length (filter Q (sorted_rows rows)) = length (filter Q rows)" for Q
  proof -
    have "mset (filter Q (sorted_rows rows)) = mset (filter Q rows)"
      by (simp add: sorted_rows_def)
    then show ?thesis
      by (metis size_mset)
  qed
  have "counts k =
    [''PFS'' \<mapsto> int (length (filter (\<lambda>r. class_name_of (classes info) r = ''PFS'') rows)),
     ''VIAL'' \<mapsto> int (length (filter (\<lambda>r. class_name_of (classes info) r = ''VIAL'') rows))] k"
    for k
    using draw_loop_counts [OF l, of k] by (simp add: c loop_init_def len)
  then show ?thesis
    by blast
qed

subsection \<open>The order of drawing\<close>

lemma draw_step_calls:
  "draw_step R C row st = Inr st' \<Longrightarrow>
   \<exists>bc dc. drawn st' =
       drawn st @ [Rectangle (box_corners row) bc, Ellipse (dot_corners row) dc] \<and>
     img_draw st' =
       R (Ellipse (dot_corners row) dc) (R (Rectangle (box_corners row) bc) (img_draw st))"
  by (auto simp: draw_step_def box_corners_def dot_corners_def Let_def
           split: option.splits if_splits)

lemma calls_for_Nil: "calls_for [] cols = []"
  by (simp add: calls_for_def)

lemma calls_for_Cons:
  "calls_for (r # rows) ((bc, dc) # cols) =
     Rectangle (box_corners r) bc # Ellipse (dot_corners r) dc # calls_for rows cols"
  by (simp add: calls_for_def)

lemma draw_loop_calls:
  "draw_loop R C rows st = Inr st' \<Longrightarrow>
   \<exists>cols. length cols = length rows \<and>
     drawn st' = drawn st @ calls_for rows cols \<and>
     img_draw st' = foldl (\<lambda>i c. R c i) (img_draw st) (calls_for rows cols)"
proof (induction rows arbitrary: st)
  case Nil
  then show ?case by (simp add: calls_for_Nil)
next
  case (Cons row rows)
  from Cons.prems obtain st1 where s1: "draw_step R C row st = Inr st1"
    and l: "draw_loop R C rows st1 = Inr st'"
    by (auto split: sum.splits)
  from draw_step_calls [OF s1] obtain bc dc where
    a: "drawn st1 = drawn st @ [Rectangle (box_corners row) bc, Ellipse (dot_corners row) dc]"
       "img_draw st1 =
          R (Ellipse (dot_corners row) dc) (R (Rectangle (box_corners row) bc) (img_draw st))"
    by blast
  from Cons.IH [OF l] obtain cols where
    b: "length cols = length rows" "drawn st' = drawn st1 @ calls_for rows cols"
       "img_draw st' = foldl (\<lambda>i c. R c i) (img_draw st1) (calls_for rows cols)"
    by blast
  have "length ((bc, dc) # cols) = length (row # rows)"
    using b(1) by simp
  moreover have "drawn st' = drawn st @ calls_for (row # rows) ((bc, dc) # cols)"
    using a(1) b(2) by (simp add: calls_for_Cons)
  moreover have "img_draw st' =
      foldl (\<lambda>i c. R c i) (img_draw st) (calls_for (row # rows) ((bc, dc) # cols))"
    using a(2) b(3) by (simp add: calls_for_Cons)
  ultimately show ?case by blast
qed

lemma sorted_rows_sorted: "sorted (map origin (sorted_rows rows))"
  by (simp add: sorted_rows_def)

lemma sorted_rows_lex:
  "sorted_wrt (\<lambda>a b. box_x1 a < box_x1 b \<or> (box_x1 a = box_x1 b \<and> box_y1 a \<le> box_y1 b))
     (sorted_rows rows)"
proof -
  have "sorted_wrt (\<lambda>a b. origin a \<le> origin b) (sorted_rows rows)"
    using sorted_rows_sorted [of rows] by (simp add: sorted_map)
  then show ?thesis
    by (rule sorted_wrt_mono_rel [rotated]) (auto simp: origin_def less_eq_prod_def)
qed

lemma sorted_rows_keys:
  assumes "mset xs = mset ys"
  shows "map origin (sorted_rows xs) = map origin (sorted_rows ys)"
proof -
  have "mset (map origin (sorted_rows xs)) = mset (map origin (sorted_rows ys))"
    using assms by (simp add: sorted_rows_def)
  then show ?thesis
    using sorted_rows_sorted by (metis properties_for_sort)
qed

lemma sorted_rows_determined:
  assumes "mset xs = mset ys" "inj_on origin (set xs)"
  shows "sorted_rows xs = sorted_rows ys"
proof -
  have s: "set (sorted_rows xs) = set xs" "set (sorted_rows ys) = set xs"
    using assms(1) by (simp_all add: sorted_rows_def) (metis set_mset_mset)
  have "inj_on origin (set (sorted_rows xs) \<union> set (sorted_rows ys))"
    using assms(2) s by simp
  then show ?thesis
    using sorted_rows_keys [OF assms(1)] by (rule inj_on_map_eq_map [THEN iffD1])
qed

text \<open>
  C7, as the code has it: when \<^verbatim>\<open>predict_and_draw\<close> returns for at least one
  detection, the image it returns is the input image on which one rectangle and one dot
  per detection have been drawn, detection after detection, in an order that holds every
  detection of the detector once, is sorted by the origin of the box as the detector
  gave it (first by x1 and, for equal x1, by y1) and keeps detections of the same origin
  in the order in which the detector returned them. So, when no two detections have the
  same origin, the outcome is the same in whatever order the detector returns them.
\<close>

theorem draw_order:
  assumes "predict_and_draw P R now im info = Inr (img, counts, ts)"
    and "P (model info) (cvtColor im COLOR_RGB2BGR) (conf_threshold info) (iou_threshold info)
           = rows # rest"
    and "rows \<noteq> []"
  shows "(\<exists>order colours.
            mset order = mset rows \<and>
            sorted_wrt (\<lambda>a b. box_x1 a < box_x1 b \<or>
                              (box_x1 a = box_x1 b \<and> box_y1 a \<le> box_y1 b)) order \<and>
            (\<forall>k. filter (\<lambda>r. origin r = k) order = filter (\<lambda>r. origin r = k) rows) \<and>
            length colours = length order \<and>
            img = foldl (\<lambda>i c. R c i) im (calls_for order colours)) \<and>
         (P' (model info) (cvtColor im COLOR_RGB2BGR) (conf_threshold info) (iou_threshold info)
            = other # rest' \<longrightarrow>
          mset other = mset rows \<longrightarrow> inj_on origin (set rows) \<longrightarrow>
          predict_and_draw P' R now im info = predict_and_draw P R now im info)"
proof -
  from assms obtain st where
    l: "draw_loop R (classes info) (sorted_rows rows)
          (loop_init (cvtColor (cvtColor im COLOR_RGB2BGR) COLOR_BGR2RGB)) = Inr st"
    and i: "img = img_draw st"
    by (auto simp: predict_and_draw_def Let_def simp del: cvtColor.simps split: sum.splits)
  from draw_loop_calls [OF l] obtain cols where
    c: "length cols = length (sorted_rows rows)"
       "img_draw st = foldl (\<lambda>i c. R c i) im (calls_for (sorted_rows rows) cols)"
    by (auto simp: loop_init_def cvtColor_back simp del: cvtColor.simps)
  have "mset (sorted_rows rows) = mset rows"
    by (simp add: sorted_rows_def)
  moreover have "\<forall>k. filter (\<lambda>r. origin r = k) (sorted_rows rows) =
      filter (\<lambda>r. origin r = k) rows"
    by (simp add: sorted_rows_def sort_key_stable)
  ultimately have first: "\<exists>order colours.
            mset order = mset rows \<and>
            sorted_wrt (\<lambda>a b. box_x1 a < box_x1 b \<or>
                              (box_x1 a = box_x1 b \<and> box_y1 a \<le> box_y1 b)) order \<and>
            (\<forall>k. filter (\<lambda>r. origin r = k) order = filter (\<lambda>r. origin r = k) rows) \<and>
            length colours = length order \<and>
            img = foldl (\<lambda>i c. R c i) im (calls_for order colours)"
    using sorted_rows_lex [of rows] c i by blast
  have second: "predict_and_draw P' R now im info = predict_and_draw P R now im info"
    if r': "P' (model info) (cvtColor im COLOR_RGB2BGR) (conf_threshold info)
              (iou_threshold info) = other # rest'"
      and m: "mset other = mset rows" and inj: "inj_on origin (set rows)"
  proof -
    have "sorted_rows other = sorted_rows rows"
      using sorted_rows_determined [of rows other] m inj by simp
    moreover have "other \<noteq> []"
      using m assms(3) by auto
    ultimately show ?thesis
      using assms(2,3) r'
      by (simp add: predict_and_draw_def Let_def del: cvtColor.simps)
  qed
  from first second show ?thesis
    by blast
qed

lemma some_run:
  "\<exists>img. predict_and_draw (det_rows some_rows) mark_last ''2024-01-01 10:00:00'' img_red
       vials_info = Inr (img, [''PFS'' \<mapsto> 0, ''VIAL'' \<mapsto> 3], ''2024-01-01 10:00:00'') \<and>
     pixels img 0 0 = (50, 40, 0)"
  by (simp add: predict_and_draw_def det_rows_def some_rows_def sorted_rows_def origin_def
        box_def vials_info_def draw_step_def class_name_of_def loop_init_def Let_def
        img_red_def fun_upd_twist)

theorem draw_order_witness:
  "det_rows some_rows (model vials_info) (cvtColor img_red COLOR_RGB2BGR)
      (conf_threshold vials_info) (iou_threshold vials_info) = some_rows # [] \<and>
   some_rows \<noteq> [] \<and>
   det_rows (rev some_rows) (model vials_info) (cvtColor img_red COLOR_RGB2BGR)
      (conf_threshold vials_info) (iou_threshold vials_info) = rev some_rows # [] \<and>
   mset (rev some_rows) = mset some_rows \<and> inj_on origin (set some_rows) \<and>
   (\<exists>img. predict_and_draw (det_rows some_rows) mark_last ''2024-01-01 10:00:00'' img_red
       vials_info = Inr (img, [''PFS'' \<mapsto> 0, ''VIAL'' \<mapsto> 3], ''2024-01-01 10:00:00'') \<and>
     pixels img 0 0 = (50, 40, 0) \<and>
     (\<exists>order colours.
        mset order = mset some_rows \<and>
        sorted_wrt (\<lambda>a b. box_x1 a < box_x1 b \<or>
                          (box_x1 a = box_x1 b \<and> box_y1 a \<le> box_y1 b)) order \<and>
        (\<forall>k. filter (\<lambda>r. origin r = k) order = filter (\<lambda>r. origin r = k) some_rows) \<and>
        length colours = length order \<and>
        img = foldl (\<lambda>i c. mark_last c i) img_red (calls_for order colours))) \<and>
   predict_and_draw (det_rows (rev some_rows)) mark_last ''2024-01-01 10:00:00'' img_red
     vials_info =
   predict_and_draw (det_rows some_rows) mark_last ''2024-01-01 10:00:00'' img_red vials_info"
proof -
  have r: "det_rows some_rows (model vials_info) (cvtColor img_red COLOR_RGB2BGR)
      (conf_threshold vials_info) (iou_threshold vials_info) = some_rows # []"
    and r': "det_rows (rev some_rows) (model vials_info) (cvtColor img_red COLOR_RGB2BGR)
      (conf_threshold vials_info) (iou_threshold vials_info) = rev some_rows # []"
    by (simp_all add: det_rows_def)
  have ne: "some_rows \<noteq> []"
    by (simp add: some_rows_def)
  have m: "mset (rev some_rows) = mset some_rows"
    by simp
  have i: "inj_on origin (set some_rows)"
    by (simp add: some_rows_def box_def origin_def)
  from some_run obtain img where
    e: "predict_and_draw (det_rows some_rows) mark_last ''2024-01-01 10:00:00'' img_red
       vials_info = Inr (img, [''PFS'' \<mapsto> 0, ''VIAL'' \<mapsto> 3], ''2024-01-01 10:00:00'')"
    and p: "pixels img 0 0 = (50, 40, 0)"
    by blast
  note t = draw_order [OF e r ne, of "det_rows (rev some_rows)" "rev some_rows" "[]"]
  from t r' m i have
    "predict_and_draw (det_rows (rev some_rows)) mark_last ''2024-01-01 10:00:00'' img_red
       vials_info =
     predict_and_draw (det_rows some_rows) mark_last ''2024-01-01 10:00:00'' img_red vials_info"
    by blast
  moreover from t have "\<exists>order colours.
        mset order = mset some_rows \<and>
        sorted_wrt (\<lambda>a b. box_x1 a < box_x1 b \<or>
                          (box_x1 a = box_x1 b \<and> box_y1 a \<le> box_y1 b)) order \<and>
        (\<forall>k. filter (\<lambda>r. origin r = k) order = filter (\<lambda>r. origin r = k) some_rows) \<and>
        length colours = length order \<and>
        img = foldl (\<lambda>i c. mark_last c i) img_red (calls_for order colours)"
    by blast
  ultimately show ?thesis
    using r r' ne m i e p by blast
qed

text \<open>
  Two detections with the same origin are drawn in the order in which the detector
  returned them. With two boxes of different sizes the rectangle drawn last is the one
  the detector returned last; and when one of the two has a class id that is not in
  the table, the function raises if the detector returned that one first and returns
  otherwise.
\<close>

theorem draw_order_counterexample:
  "mset (rev tie_rows) = mset tie_rows \<and>
   outcome_pixel (predict_and_draw (det_rows tie_rows) mark_last ''2024-01-01 10:00:00''
      img_red vials_info) 0 0 = Some (90, 90, 0) \<and>
   outcome_pixel (predict_and_draw (det_rows (rev tie_rows)) mark_last ''2024-01-01 10:00:00''
      img_red vials_info) 0 0 = Some (10, 10, 0) \<and>
   mset (rev tie_unknown) = mset tie_unknown \<and>
   predict_and_draw (det_rows tie_unknown) no_render ''2024-01-01 10:00:00''
      img_red vials_info = Inl UnboundLocalError \<and>
   outcome_counts (predict_and_draw (det_rows (rev tie_unknown)) no_render
      ''2024-01-01 10:00:00'' img_red vials_info) = Some [''PFS'' \<mapsto> 0, ''VIAL'' \<mapsto> 1]"
  by (simp add: predict_and_draw_def det_rows_def tie_rows_def tie_unknown_def sorted_rows_def
        origin_def box_def vials_info_def draw_step_def class_name_of_def loop_init_def Let_def
        img_red_def no_render_def outcome_pixel_def outcome_counts_def fun_upd_twist)

section \<open>The detection page\<close>

lemma predict_and_draw_time:
  "predict_and_draw P R t im info = Inr (img, counts, ts) \<Longrightarrow> ts = t"
  by (auto simp: predict_and_draw_def Let_def simp del: cvtColor.simps split: if_splits sum.splits)

lemma arbitrate_rule:
  "arbitrate (iv, cv) (ip, cp) =
     (if dict_get0 cp ''PFS'' \<le> dict_get0 cv ''VIAL''
      then (iv, ''Vials'', [''PFS'' \<mapsto> 0, ''VIAL'' \<mapsto> dict_get0 cv ''VIAL''])
      else (ip, ''PFS'', [''PFS'' \<mapsto> dict_get0 cp ''PFS'', ''VIAL'' \<mapsto> 0]))"
  by (simp add: arbitrate_def Let_def)

lemma process_image_row:
  assumes "process_image P R now u im name s = (Inr row, s')"
    and "models_global s ''Vials'' = Some iv"
    and "models_global s ''PFS'' = Some ip"
    and "predict_and_draw P R (now (clock_reads s)) im iv = Inr (imv, cv, tv)"
    and "predict_and_draw P R (now (clock_reads s + 1)) im ip = Inr (imp, cp, tp)"
  shows "row = \<lparr>Image_Name = name,
                Model_Used = (if dict_get0 cp ''PFS'' \<le> dict_get0 cv ''VIAL'' then ''Vials'' else ''PFS''),
                PFS_Count = (if dict_get0 cp ''PFS'' \<le> dict_get0 cv ''VIAL'' then 0 else dict_get0 cp ''PFS''),
                VIAL_Count = (if dict_get0 cp ''PFS'' \<le> dict_get0 cv ''VIAL'' then dict_get0 cv ''VIAL'' else 0),
                Timestamp = tv, Username = u\<rparr>"
  using assms
  by (auto simp: process_image_def dict_item_def arbitrate_rule Let_def
           split: option.splits if_splits)

lemma process_image_frame:
  "process_image P R now u im name s = (res, s') \<Longrightarrow>
   models_global s' = models_global s \<and> detection s' = detection s \<and>
   to_sql_calls s' = to_sql_calls s"
  by (auto simp: process_image_def dict_item_def arbitrate_rule Let_def
           split: option.splits if_splits sum.splits prod.splits)

lemma process_image_name:
  "process_image P R now u im name s = (Inr row, s') \<Longrightarrow>
   Image_Name row = name \<and> Username row = u"
  by (auto simp: process_image_def dict_item_def arbitrate_rule Let_def
           split: option.splits if_splits sum.splits prod.splits)

lemma process_images_frame:
  "process_images P R now u ups s = (res, s') \<Longrightarrow>
   models_global s' = models_global s \<and> detection s' = detection s \<and>
   to_sql_calls s' = to_sql_calls s"
proof (induction ups arbitrary: s res s')
  case Nil
  then show ?case by simp
next
  case (Cons a ups)
  obtain im name where a: "a = (im, name)" by (cases a)
  obtain r1 s1 where p: "process_image P R now u im name s = (r1, s1)"
    by (cases "process_image P R now u im name s")
  note f = process_image_frame [OF p]
  show ?case
  proof (cases r1)
    case (Inl e)
    with Cons.prems a p f show ?thesis by simp
  next
    case (Inr row)
    obtain r2 s2 where q: "process_images P R now u ups s1 = (r2, s2)"
      by (cases "process_images P R now u ups s1")
    from Cons.IH [OF q] f Cons.prems a p Inr q show ?thesis
      by (auto split: sum.splits)
  qed
qed

lemma process_images_names:
  "process_images P R now u ups s = (Inr rows, s') \<Longrightarrow>
   map Image_Name rows = map snd ups"
proof (induction ups arbitrary: s rows s')
  case Nil
  then show ?case by simp
next
  case (Cons a ups)
  obtain im name where a: "a = (im, name)" by (cases a)
  from Cons.prems a obtain row s1 rows1 where
    p: "process_image P R now u im name s = (Inr row, s1)"
    and q: "process_images P R now u ups s1 = (Inr rows1, s')"
    and r: "rows = row # rows1"
    by (auto split: prod.splits sum.splits)
  show ?case
    using Cons.IH [OF q] process_image_name [OF p] a r by simp
qed

lemma save_originals_frame:
  "models_global (save_originals ups s) = models_global s \<and>
   detection (save_originals ups s) = detection s \<and>
   to_sql_calls (save_originals ups s) = to_sql_calls s"
  by (induction ups s rule: save_originals.induct) simp_all

lemmas eval_defs = predict_and_draw_def det_by_model_def det_none_def det_unknown_def
  sorted_rows_def origin_def box_def vials_info_def pfs_info_def draw_step_def
  class_name_of_def loop_init_def no_render_def Let_def models_def page0_def clock_fn_def
  process_image_def dict_item_def dict_get0_def arbitrate_def os_path_join_def
  original_folder_def processed_folder_def combined_folder_def batch3_def row_of_def
  reject_name_def user_detection_page_def

subsection \<open>Arbitration\<close>

text \<open>
  C1: for the count v of VIAL in the outcome of the Vials detector and the count p of
  PFS in the outcome of the PFS detector (a missing key counting as zero), the row of
  results has model Vials, v vials and no PFS when v is at least p, ties included, and
  model PFS, p PFS and no vials when p is greater than v: the winner's count is passed on
  as it is and the loser's count is zero.
\<close>

theorem arbitration_rule:
  assumes "process_image P R now u im name s = (Inr row, s')"
    and "models_global s ''Vials'' = Some iv"
    and "models_global s ''PFS'' = Some ip"
    and "predict_and_draw P R (now (clock_reads s)) im iv = Inr (imv, cv, tv)"
    and "predict_and_draw P R (now (clock_reads s + 1)) im ip = Inr (imp, cp, tp)"
    and "dict_get0 cv ''VIAL'' = v"
    and "dict_get0 cp ''PFS'' = p"
  shows "(p \<le> v \<longrightarrow> Model_Used row = ''Vials'' \<and> VIAL_Count row = v \<and> PFS_Count row = 0) \<and>
         (v < p \<longrightarrow> Model_Used row = ''PFS'' \<and> PFS_Count row = p \<and> VIAL_Count row = 0)"
  using process_image_row [OF assms(1-5)] assms(6,7) by auto

lemma run_tie:
  "fst (process_image (det_by_model [box 5 5 20 20 0] [box 1 1 9 9 0]) no_render clock_fn
     ''ann'' img_red ''a.jpg'' (save_originals [(img_red, ''a.jpg'')] page0)) =
   Inr \<lparr>Image_Name = ''a.jpg'', Model_Used = ''Vials'', PFS_Count = 0, VIAL_Count = 1,
        Timestamp = ''2024-01-01 10:00:00'', Username = ''ann''\<rparr>"
  by (simp add: eval_defs)

lemma run_pfs:
  "fst (process_image (det_by_model [] [box 1 1 9 9 0]) no_render clock_fn
     ''ann'' img_red ''a.jpg'' (save_originals [(img_red, ''a.jpg'')] page0)) =
   Inr \<lparr>Image_Name = ''a.jpg'', Model_Used = ''PFS'', PFS_Count = 1, VIAL_Count = 0,
        Timestamp = ''2024-01-01 10:00:00'', Username = ''ann''\<rparr>"
  by (simp add: eval_defs)

lemma page1_models:
  "models_global (save_originals [(img_red, ''a.jpg'')] page0) ''Vials'' = Some vials_info"
  "models_global (save_originals [(img_red, ''a.jpg'')] page0) ''PFS'' = Some pfs_info"
  "clock_reads (save_originals [(img_red, ''a.jpg'')] page0) = 0"
  by (simp_all add: page0_def models_def)

lemma outcome_vials_one:
  "predict_and_draw (det_by_model [box 5 5 20 20 0] [box 1 1 9 9 0]) no_render
     ''2024-01-01 10:00:00'' img_red vials_info =
   Inr (cvtColor (cvtColor img_red COLOR_RGB2BGR) COLOR_BGR2RGB,
        [''PFS'' \<mapsto> 0, ''VIAL'' \<mapsto> 1], ''2024-01-01 10:00:00'')"
  by (simp add: eval_defs fun_upd_twist)

lemma outcome_vials_none:
  "predict_and_draw (det_by_model [] [box 1 1 9 9 0]) no_render
     ''2024-01-01 10:00:00'' img_red vials_info =
   Inr (cvtColor img_red COLOR_RGB2BGR, Map.empty, ''2024-01-01 10:00:00'')"
  by (simp add: eval_defs)

lemma outcome_pfs_one:
  "predict_and_draw (det_by_model vrows [box 1 1 9 9 0]) no_render
     ''2024-01-01 10:00:01'' img_red pfs_info =
   Inr (cvtColor (cvtColor img_red COLOR_RGB2BGR) COLOR_BGR2RGB,
        [''PFS'' \<mapsto> 1, ''VIAL'' \<mapsto> 0], ''2024-01-01 10:00:01'')"
  by (simp add: eval_defs fun_upd_twist)

theorem arbitration_rule_witness:
  "(\<exists>row s'. process_image (det_by_model [box 5 5 20 20 0] [box 1 1 9 9 0]) no_render clock_fn
       ''ann'' img_red ''a.jpg'' (save_originals [(img_red, ''a.jpg'')] page0) = (Inr row, s') \<and>
     (1::int) \<le> 1 \<and> Model_Used row = ''Vials'' \<and> VIAL_Count row = 1 \<and> PFS_Count row = 0) \<and>
   (\<exists>row s'. process_image (det_by_model [] [box 1 1 9 9 0]) no_render clock_fn
       ''ann'' img_red ''a.jpg'' (save_originals [(img_red, ''a.jpg'')] page0) = (Inr row, s') \<and>
     (0::int) < 1 \<and> Model_Used row = ''PFS'' \<and> PFS_Count row = 1 \<and> VIAL_Count row = 0)"
proof -
  obtain r1 s1 where a: "process_image (det_by_model [box 5 5 20 20 0] [box 1 1 9 9 0])
      no_render clock_fn ''ann'' img_red ''a.jpg''
      (save_originals [(img_red, ''a.jpg'')] page0) = (Inr r1, s1)"
    using run_tie by (metis prod.collapse)
  obtain r2 s2 where b: "process_image (det_by_model [] [box 1 1 9 9 0])
      no_render clock_fn ''ann'' img_red ''a.jpg''
      (save_originals [(img_red, ''a.jpg'')] page0) = (Inr r2, s2)"
    using run_pfs by (metis prod.collapse)
  have t0: "clock_fn (clock_reads (save_originals [(img_red, ''a.jpg'')] page0)) =
      ''2024-01-01 10:00:00''"
    and t1: "clock_fn (clock_reads (save_originals [(img_red, ''a.jpg'')] page0) + 1) =
      ''2024-01-01 10:00:01''"
    by (simp_all add: clock_fn_def page0_def)
  have "(1::int) \<le> 1 \<longrightarrow> Model_Used r1 = ''Vials'' \<and> VIAL_Count r1 = 1 \<and> PFS_Count r1 = 0"
    using arbitration_rule [OF a page1_models(1,2)
        outcome_vials_one [folded t0] outcome_pfs_one [folded t1], of 1 1]
    by (simp add: dict_get0_def)
  moreover have "(0::int) < 1 \<longrightarrow> Model_Used r2 = ''PFS'' \<and> PFS_Count r2 = 1 \<and> VIAL_Count r2 = 0"
    using arbitration_rule [OF b page1_models(1,2)
        outcome_vials_none [folded t0] outcome_pfs_one [folded t1], of 0 1]
    by (simp add: dict_get0_def)
  ultimately show ?thesis
    using a b by auto
qed

subsection \<open>The timestamp of a row\<close>

text \<open>
  C4: the timestamp of the row of results is the one returned with the outcome of the
  Vials detector, whichever detector wins; the timestamp of the PFS outcome is not used.
\<close>

theorem timestamp_of_vials:
  assumes "process_image P R now u im name s = (Inr row, s')"
    and "models_global s ''Vials'' = Some iv"
    and "models_global s ''PFS'' = Some ip"
    and "predict_and_draw P R (now (clock_reads s)) im iv = Inr (imv, cv, tv)"
    and "predict_and_draw P R (now (clock_reads s + 1)) im ip = Inr (imp, cp, tp)"
  shows "Timestamp row = tv \<and> tv = now (clock_reads s)"
  using process_image_row [OF assms] predict_and_draw_time [OF assms(4)] by simp

theorem timestamp_of_vials_witness:
  "\<exists>row s'. process_image (det_by_model [] [box 1 1 9 9 0]) no_render clock_fn
       ''ann'' img_red ''a.jpg'' (save_originals [(img_red, ''a.jpg'')] page0) = (Inr row, s') \<and>
     Model_Used row = ''PFS'' \<and> Timestamp row = ''2024-01-01 10:00:00'' \<and>
     predict_and_draw (det_by_model [] [box 1 1 9 9 0]) no_render
       ''2024-01-01 10:00:01'' img_red pfs_info =
     Inr (cvtColor (cvtColor img_red COLOR_RGB2BGR) COLOR_BGR2RGB,
          [''PFS'' \<mapsto> 1, ''VIAL'' \<mapsto> 0], ''2024-01-01 10:00:01'')"
proof -
  obtain r2 s2 where b: "process_image (det_by_model [] [box 1 1 9 9 0])
      no_render clock_fn ''ann'' img_red ''a.jpg''
      (save_originals [(img_red, ''a.jpg'')] page0) = (Inr r2, s2)"
    using run_pfs by (metis prod.collapse)
  have t0: "clock_fn (clock_reads (save_originals [(img_red, ''a.jpg'')] page0)) =
      ''2024-01-01 10:00:00''"
    and t1: "clock_fn (clock_reads (save_originals [(img_red, ''a.jpg'')] page0) + 1) =
      ''2024-01-01 10:00:01''"
    by (simp_all add: clock_fn_def page0_def)
  have "Timestamp r2 = ''2024-01-01 10:00:00''"
    using timestamp_of_vials [OF b page1_models(1,2)
        outcome_vials_none [folded t0] outcome_pfs_one [folded t1]]
    by (simp add: clock_fn_def page0_def)
  moreover have "Model_Used r2 = ''PFS''"
    using b run_pfs by simp
  ultimately show ?thesis
    using b outcome_pfs_one by blast
qed

subsection \<open>Pushing the rows to the database\<close>

text \<open>
  C2, as the code has it: the rows of a batch are pushed to the database together. For
  an empty batch the page makes no call of \<^verbatim>\<open>to_sql\<close> and changes nothing. When
  processing an image raises, no call is made either and the table is as it was.
  Otherwise the page makes exactly one call, after the last image, with one row per
  image in the order of the images, and the table after the page is the table that this
  call leaves. So, when the call appends the rows it is given, all the rows of the batch
  are in the table, in their order, after the rows that were there; and when the call
  raises and leaves the table as it was, no row of the batch is in it.
\<close>

theorem batch_pushed_once:
  assumes "user_detection_page P R now snk (Some u) ups s = (res, s')"
  shows "length (to_sql_calls s') \<le> length (to_sql_calls s) + 1 \<and>
    (ups = [] \<longrightarrow> res = Inr [] \<and> s' = s) \<and>
    (\<forall>e. fst (process_images P R now u ups (save_originals ups s)) = Inl e \<longrightarrow>
       res = Inl e \<and> to_sql_calls s' = to_sql_calls s \<and> detection s' = detection s) \<and>
    (\<forall>rows. fst (process_images P R now u ups (save_originals ups s)) = Inr rows \<longrightarrow>
       ups \<noteq> [] \<longrightarrow>
       map Image_Name rows = map snd ups \<and>
       to_sql_calls s' = to_sql_calls s @ [rows] \<and>
       detection s' = snd (snk rows (detection s)) \<and>
       res = (case fst (snk rows (detection s)) of None \<Rightarrow> Inr rows | Some e \<Rightarrow> Inl e) \<and>
       (snk rows (detection s) = (None, detection s @ rows) \<longrightarrow>
          res = Inr rows \<and> detection s' = detection s @ rows) \<and>
       (\<forall>e. snk rows (detection s) = (Some e, detection s) \<longrightarrow>
          res = Inl e \<and> detection s' = detection s))"
proof -
  obtain r1 s1 where p: "process_images P R now u ups (save_originals ups s) = (r1, s1)"
    by (cases "process_images P R now u ups (save_originals ups s)")
  note f = process_images_frame [OF p] save_originals_frame [of ups s]
  show ?thesis
  proof (cases r1)
    case (Inl e)
    then have "ups \<noteq> []"
      using p by auto
    with Inl assms p f show ?thesis
      by (auto simp: user_detection_page_def Let_def)
  next
    case (Inr rows)
    note n = process_images_names [OF p [unfolded Inr]]
    then have ne: "ups \<noteq> [] \<longleftrightarrow> rows \<noteq> []"
      by auto
    show ?thesis
    proof (cases "ups = []")
      case True
      with assms show ?thesis
        by (simp add: user_detection_page_def Let_def)
    next
      case False
      obtain eo table where k: "snk rows (detection s) = (eo, table)"
        by (cases "snk rows (detection s)")
      show ?thesis
        using assms p f Inr n ne False k
        by (cases eo) (auto simp: user_detection_page_def Let_def)
    qed
  qed
qed

lemma run_batch3:
  "fst (process_images det_none no_render clock_fn ''ann'' batch3
          (save_originals batch3 page0)) =
   Inr [row_of ''a.jpg'', row_of ''b.jpg'', row_of ''c.jpg'']"
  by (simp add: eval_defs)

lemma run_batch_unknown:
  "fst (process_images det_unknown no_render clock_fn ''ann'' batch3
          (save_originals batch3 page0)) = Inl UnboundLocalError"
  by (simp add: eval_defs)

theorem batch_pushed_once_witness:
  "batch3 \<noteq> [] \<and>
   fst (process_images det_none no_render clock_fn ''ann'' batch3
          (save_originals batch3 page0)) =
     Inr [row_of ''a.jpg'', row_of ''b.jpg'', row_of ''c.jpg''] \<and>
   reject_name ''z.jpg'' [row_of ''a.jpg'', row_of ''b.jpg'', row_of ''c.jpg''] (detection page0) =
     (None, detection page0 @ [row_of ''a.jpg'', row_of ''b.jpg'', row_of ''c.jpg'']) \<and>
   to_sql_calls (snd (user_detection_page det_none no_render clock_fn (reject_name ''z.jpg'')
      (Some ''ann'') batch3 page0)) = [[row_of ''a.jpg'', row_of ''b.jpg'', row_of ''c.jpg'']] \<and>
   detection (snd (user_detection_page det_none no_render clock_fn (reject_name ''z.jpg'')
      (Some ''ann'') batch3 page0)) = [row_of ''a.jpg'', row_of ''b.jpg'', row_of ''c.jpg''] \<and>
   reject_name ''b.jpg'' [row_of ''a.jpg'', row_of ''b.jpg'', row_of ''c.jpg''] (detection page0) =
     (Some PersistenceError, detection page0) \<and>
   fst (user_detection_page det_none no_render clock_fn (reject_name ''b.jpg'')
      (Some ''ann'') batch3 page0) = Inl PersistenceError \<and>
   detection (snd (user_detection_page det_none no_render clock_fn (reject_name ''b.jpg'')
      (Some ''ann'') batch3 page0)) = [] \<and>
   fst (process_images det_unknown no_render clock_fn ''ann'' batch3
          (save_originals batch3 page0)) = Inl UnboundLocalError \<and>
   to_sql_calls (snd (user_detection_page det_unknown no_render clock_fn (reject_name ''z.jpg'')
      (Some ''ann'') batch3 page0)) = [] \<and>
   detection (snd (user_detection_page det_unknown no_render clock_fn (reject_name ''z.jpg'')
      (Some ''ann'') batch3 page0)) = [] \<and>
   user_detection_page det_none no_render clock_fn (reject_name ''z.jpg'')
      (Some ''ann'') [] page0 = (Inr [], page0)"
proof -
  have ne: "batch3 \<noteq> []"
    by (simp add: batch3_def)
  have p0: "to_sql_calls page0 = []" "detection page0 = []"
    by (simp_all add: page0_def)
  have sz: "reject_name ''z.jpg'' [row_of ''a.jpg'', row_of ''b.jpg'', row_of ''c.jpg'']
      (detection page0) =
      (None, detection page0 @ [row_of ''a.jpg'', row_of ''b.jpg'', row_of ''c.jpg''])"
    by (simp add: reject_name_def row_of_def)
  have sb: "reject_name ''b.jpg'' [row_of ''a.jpg'', row_of ''b.jpg'', row_of ''c.jpg'']
      (detection page0) = (Some PersistenceError, detection page0)"
    by (simp add: reject_name_def row_of_def)
  note ok = batch_pushed_once [OF surjective_pairing, of det_none no_render clock_fn
      "reject_name ''z.jpg''" "''ann''" batch3 page0]
  note rej = batch_pushed_once [OF surjective_pairing, of det_none no_render clock_fn
      "reject_name ''b.jpg''" "''ann''" batch3 page0]
  note bad = batch_pushed_once [OF surjective_pairing, of det_unknown no_render clock_fn
      "reject_name ''z.jpg''" "''ann''" batch3 page0]
  note emp = batch_pushed_once [OF surjective_pairing, of det_none no_render clock_fn
      "reject_name ''z.jpg''" "''ann''" "[]" page0]
  from ok run_batch3 ne sz have a:
    "to_sql_calls (snd (user_detection_page det_none no_render clock_fn (reject_name ''z.jpg'')
       (Some ''ann'') batch3 page0)) =
       to_sql_calls page0 @ [[row_of ''a.jpg'', row_of ''b.jpg'', row_of ''c.jpg'']]"
    "detection (snd (user_detection_page det_none no_render clock_fn (reject_name ''z.jpg'')
       (Some ''ann'') batch3 page0)) =
       detection page0 @ [row_of ''a.jpg'', row_of ''b.jpg'', row_of ''c.jpg'']"
    by blast+
  from rej run_batch3 ne sb have b:
    "fst (user_detection_page det_none no_render clock_fn (reject_name ''b.jpg'')
       (Some ''ann'') batch3 page0) = Inl PersistenceError"
    "detection (snd (user_detection_page det_none no_render clock_fn (reject_name ''b.jpg'')
       (Some ''ann'') batch3 page0)) = detection page0"
    by blast+
  from bad run_batch_unknown have c:
    "to_sql_calls (snd (user_detection_page det_unknown no_render clock_fn
       (reject_name ''z.jpg'') (Some ''ann'') batch3 page0)) = to_sql_calls page0"
    "detection (snd (user_detection_page det_unknown no_render clock_fn
       (reject_name ''z.jpg'') (Some ''ann'') batch3 page0)) = detection page0"
    by blast+
  from emp have d:
    "fst (user_detection_page det_none no_render clock_fn (reject_name ''z.jpg'')
       (Some ''ann'') [] page0) = Inr []"
    "snd (user_detection_page det_none no_render clock_fn (reject_name ''z.jpg'')
       (Some ''ann'') [] page0) = page0"
    by blast+
  from d have e: "user_detection_page det_none no_render clock_fn (reject_name ''z.jpg'')
      (Some ''ann'') [] page0 = (Inr [], page0)"
    by (simp add: prod_eq_iff)
  show ?thesis
    using a b c e ne run_batch3 run_batch_unknown sz sb by (simp add: p0)
qed


text \<open>
  A database that refuses the row of the second image of three and gives the table
  back as it was: the page made one call with the three rows, the call raised and the
  table has none of them, though each of the other two rows alone would have been
  accepted.
\<close>

theorem batch_pushed_once_counterexample:
  "fst (user_detection_page det_none no_render clock_fn (reject_name ''b.jpg'')
      (Some ''ann'') batch3 page0) = Inl PersistenceError \<and>
   to_sql_calls (snd (user_detection_page det_none no_render clock_fn (reject_name ''b.jpg'')
      (Some ''ann'') batch3 page0)) = [[row_of ''a.jpg'', row_of ''b.jpg'', row_of ''c.jpg'']] \<and>
   detection (snd (user_detection_page det_none no_render clock_fn (reject_name ''b.jpg'')
      (Some ''ann'') batch3 page0)) = [] \<and>
   reject_name ''b.jpg'' [row_of ''a.jpg''] [] = (None, [row_of ''a.jpg'']) \<and>
   reject_name ''b.jpg'' [row_of ''c.jpg''] [] = (None, [row_of ''c.jpg''])"
  by (simp add: eval_defs)


subsection \<open>The two configurations\<close>

text \<open>
  C8: the dictionary of configurations has exactly the keys Vials and PFS; the Vials
  configuration has confidence threshold 0.65 and overlap threshold 0.45, the PFS
  configuration 0.70 and 0.45, each in fields of its own; and the page leaves the
  dictionary as it found it, whatever it is given and however it ends.
\<close>

theorem models_fixed:
  "dom models = {''Vials'', ''PFS''} \<and>
   models ''Vials'' = Some vials_info \<and>
   conf_threshold vials_info = 65 / 100 \<and> iou_threshold vials_info = 45 / 100 \<and>
   models ''PFS'' = Some pfs_info \<and>
   conf_threshold pfs_info = 70 / 100 \<and> iou_threshold pfs_info = 45 / 100 \<and>
   models_global (snd (user_detection_page P R now snk su ups s)) = models_global s"
proof -
  have "models_global (snd (user_detection_page P R now snk su ups s)) = models_global s"
  proof (cases su)
    case None
    then show ?thesis by (simp add: user_detection_page_def)
  next
    case (Some u)
    obtain r1 s1 where p: "process_images P R now u ups (save_originals ups s) = (r1, s1)"
      by (cases "process_images P R now u ups (save_originals ups s)")
    note f = process_images_frame [OF p] save_originals_frame [of ups s]
    show ?thesis
      using Some p f
      by (auto simp: user_detection_page_def Let_def
               split: sum.splits if_splits prod.splits option.splits)
  qed
  moreover have "dom models = {''Vials'', ''PFS''}"
    by (auto simp: models_def)
  ultimately show ?thesis
    by (simp add: models_def vials_info_def pfs_info_def)
qed


end
